theory Spec2Isabelle
  imports Main "HOL-Library.Multiset"
begin

section \<open>Data model\<close>

text \<open>
  Modelled from the spec: \<^verbatim>\<open>blog/models.py\<close> is not among the source files, so the
  records follow the data-model table of the specification (section 3) and the
  field names that \<^verbatim>\<open>views.py\<close> and \<^verbatim>\<open>admin.py\<close> use. A foreign key holds
  the primary key of the row it points to; a date is a point on an integer time line.
\<close>

record user =
  user_pk :: nat
  username :: string
  first_name :: string
  last_name :: string
  email :: string

record category =
  cat_pk :: nat
  cat_title :: string
  cat_slug :: string
  cat_description :: string
  cat_is_published :: bool
  cat_created_at :: int

record location =
  loc_pk :: nat
  loc_name :: string

record post =
  post_pk :: nat
  post_title :: string
  post_text :: string
  post_pub_date :: int
  post_is_published :: bool
  post_author :: nat
  post_category :: "nat option"
  post_location :: "nat option"
  post_created_at :: int

record comment =
  comment_pk :: nat
  comment_text :: string
  comment_author :: nat
  comment_post :: nat
  comment_created_at :: int

record database =
  users :: "user list"
  categories :: "category list"
  locations :: "location list"
  posts :: "post list"
  comments :: "comment list"

section \<open>Requests, responses and errors\<close>

datatype http_method = GET | HEAD | POST | PUT | PATCH | DELETE | OPTIONS | TRACE

text \<open>
  \<^verbatim>\<open>request.user\<close>: the anonymous user, or the row of the logged-in user as the
  authentication middleware loaded it.
\<close>

datatype request_user = AnonymousUser | Authenticated user

text \<open>
  The \<^verbatim>\<open>page\<close> query parameter, classified by what the code does with it: it is
  absent (\<^verbatim>\<open>None\<close>), the empty string, the string \<^verbatim>\<open>last\<close>, another string that
  \<^verbatim>\<open>int()\<close> rejects, or a value that \<^verbatim>\<open>int()\<close> turns into the given integer.
\<close>

datatype page_param = PageNone | PageEmpty | PageLast | PageOther | PageInt int

record 'd request =
  req_method :: http_method
  req_user :: request_user
  req_page :: page_param
  req_POST :: 'd
  req_now :: int

text \<open>The exceptions that leave a view.\<close>

datatype error =
    Http404
  | PermissionDenied
  | MultipleObjectsReturned
  | ZeroDivisionError
  | PageNotAnInteger
  | EmptyPage
  | ImproperlyConfigured
  | ValueError

datatype url =
    login_url
  | index_url
  | post_detail_url nat
  | profile_url string
  | other_url string

text \<open>A listed post carries its annotation \<^verbatim>\<open>comment_count\<close>.\<close>

type_synonym annotated_post = "post \<times> nat"

record page =
  object_list :: "annotated_post list"
  number :: int
  paginator_num_pages :: int

datatype ctx =
    ListContext "page option" "annotated_post list"
  | CategoryContext "page option" "annotated_post list" category
  | ProfileContext user page
  | DetailContext post "comment list"
  | PostFormContext "post option"
  | CommentFormContext comment
  | UserFormContext user

datatype response =
    TemplateResponse string ctx
  | HttpResponseRedirect url
  | HttpResponseNotAllowed
  | OptionsResponse

type_synonym outcome = "error + response"

text \<open>
  Modelled from the spec: the handlers \<^verbatim>\<open>pages.views.handler_404\<close> and
  \<^verbatim>\<open>handler_500\<close> named in \<^verbatim>\<open>blogicum/urls.py\<close> are not among the source files.
  Section 7 of the specification maps the not-found condition to HTTP 404 and the
  permission-denied condition to HTTP 403; every other exception is a server error.
\<close>

fun status_code :: "outcome \<Rightarrow> nat" where
  "status_code (Inl Http404) = 404"
| "status_code (Inl PermissionDenied) = 403"
| "status_code (Inl _) = 500"
| "status_code (Inr (TemplateResponse _ _)) = 200"
| "status_code (Inr (HttpResponseRedirect _)) = 302"
| "status_code (Inr HttpResponseNotAllowed) = 405"
| "status_code (Inr OptionsResponse) = 200"

text \<open>
  What \<^verbatim>\<open>views.py\<close> imports from files that are missing: the constant
  \<^verbatim>\<open>constants.POSTS_PER_PAGE\<close> and the three model forms of \<^verbatim>\<open>blog/forms.py\<close>.
  A form takes the submitted data and the instance it is bound to (none for a new
  object) and gives the instance with the cleaned data applied, or nothing when the
  data is invalid. \<^verbatim>\<open>Post.get_absolute_url\<close> belongs to the missing models too:
  it is absent, or gives the address of a post.
\<close>

record 'd app =
  POSTS_PER_PAGE :: nat
  PostForm :: "'d \<Rightarrow> post option \<Rightarrow> post option"
  CommentForm :: "'d \<Rightarrow> comment option \<Rightarrow> comment option"
  UserForm :: "'d \<Rightarrow> user option \<Rightarrow> user option"
  Post_get_absolute_url :: "(post \<Rightarrow> url) option"

section \<open>Framework: queries\<close>

text \<open>
  \<^verbatim>\<open>get_object_or_404(Model, **lookup)\<close>: the single row that matches; no row is
  \<^verbatim>\<open>Http404\<close>, more than one is \<^verbatim>\<open>MultipleObjectsReturned\<close>.
\<close>

definition get_object_or_404 :: "('a \<Rightarrow> bool) \<Rightarrow> 'a list \<Rightarrow> error + 'a" where
  "get_object_or_404 P xs =
     (case filter P xs of
        [] \<Rightarrow> Inl Http404
      | [x] \<Rightarrow> Inr x
      | _ \<Rightarrow> Inl MultipleObjectsReturned)"

text \<open>\<^verbatim>\<open>annotate(comment_count=Count('comments'))\<close>.\<close>

definition comment_count :: "database \<Rightarrow> post \<Rightarrow> nat" where
  "comment_count db p = length (filter (\<lambda>c. comment_post c = post_pk p) (comments db))"

definition annotate :: "database \<Rightarrow> post list \<Rightarrow> annotated_post list" where
  "annotate db ps = map (\<lambda>p. (p, comment_count db p)) ps"

text \<open>
  \<^verbatim>\<open>order_by('-pub_date')\<close>: latest first. The database leaves the order of rows
  with equal dates open; the model keeps them in table order.
\<close>

definition order_by_pub_date_desc :: "post list \<Rightarrow> post list" where
  "order_by_pub_date_desc ps = sort_key (\<lambda>p. - post_pub_date p) ps"

text \<open>The row a post's \<^verbatim>\<open>category\<close> foreign key joins to (primary keys are unique).\<close>

definition category_of :: "database \<Rightarrow> post \<Rightarrow> category option" where
  "category_of db p =
     (case post_category p of
        None \<Rightarrow> None
      | Some k \<Rightarrow> find (\<lambda>c. cat_pk c = k) (categories db))"

section \<open>Framework: paginator\<close>

text \<open>
  \<^verbatim>\<open>Paginator(object_list, per_page)\<close> with no orphans and an empty first page
  allowed. \<^verbatim>\<open>num_pages\<close> is \<^verbatim>\<open>ceil(max(1, count) / per_page)\<close>.
\<close>

definition num_pages :: "nat \<Rightarrow> 'a list \<Rightarrow> error + int" where
  "num_pages per_page xs =
     (if per_page = 0 then Inl ZeroDivisionError
      else Inr (int ((max 1 (length xs) + per_page - 1) div per_page)))"

text \<open>The value of \<^verbatim>\<open>num_pages\<close> as a natural number, when \<^verbatim>\<open>per_page\<close> is positive.\<close>

definition pages_count :: "nat \<Rightarrow> 'a list \<Rightarrow> nat" where
  "pages_count per_page xs = (max 1 (length xs) + per_page - 1) div per_page"

definition validate_number :: "nat \<Rightarrow> 'a list \<Rightarrow> page_param \<Rightarrow> error + int" where
  "validate_number per_page xs n =
     (case n of
        PageInt k \<Rightarrow>
          if k < 1 then Inl EmptyPage
          else (case num_pages per_page xs of
                  Inl e \<Rightarrow> Inl e
                | Inr np \<Rightarrow> if k > np then Inl EmptyPage else Inr k)
      | _ \<Rightarrow> Inl PageNotAnInteger)"

text \<open>
  \<^verbatim>\<open>Paginator.page(number)\<close>: the slice \<^verbatim>\<open>object_list[bottom:top]\<close> with
  \<^verbatim>\<open>bottom = (number - 1) * per_page\<close> and \<^verbatim>\<open>top = bottom + per_page\<close>, cut at
  the count.
\<close>

definition paginator_page ::
  "nat \<Rightarrow> annotated_post list \<Rightarrow> page_param \<Rightarrow> error + page" where
  "paginator_page per_page xs n =
     (case validate_number per_page xs n of
        Inl e \<Rightarrow> Inl e
      | Inr k \<Rightarrow>
          (case num_pages per_page xs of
             Inl e \<Rightarrow> Inl e
           | Inr np \<Rightarrow>
               let bottom = (nat k - 1) * per_page;
                   top = (if bottom + per_page \<ge> length xs then length xs
                          else bottom + per_page)
               in Inr \<lparr>object_list = drop bottom (take top xs),
                        number = k, paginator_num_pages = np\<rparr>))"

text \<open>
  \<^verbatim>\<open>Paginator.get_page(number)\<close>: a number that is no integer gives page 1, an
  empty page gives the last page.
\<close>

definition get_page ::
  "nat \<Rightarrow> annotated_post list \<Rightarrow> page_param \<Rightarrow> error + page" where
  "get_page per_page xs n =
     (case validate_number per_page xs n of
        Inr k \<Rightarrow> paginator_page per_page xs (PageInt k)
      | Inl PageNotAnInteger \<Rightarrow> paginator_page per_page xs (PageInt 1)
      | Inl EmptyPage \<Rightarrow>
          (case num_pages per_page xs of
             Inl e \<Rightarrow> Inl e
           | Inr np \<Rightarrow> paginator_page per_page xs (PageInt np))
      | Inl e \<Rightarrow> Inl e)"

text \<open>
  \<^verbatim>\<open>MultipleObjectMixin.paginate_queryset\<close>, as \<^verbatim>\<open>ListView\<close> calls it:
  \<^verbatim>\<open>page = request.GET.get('page') or 1\<close>; a page that \<^verbatim>\<open>int()\<close> rejects is the
  last page when it is \<^verbatim>\<open>last\<close> and \<^verbatim>\<open>Http404\<close> otherwise; an invalid page is
  \<^verbatim>\<open>Http404\<close>.
\<close>

definition paginate_queryset ::
  "nat \<Rightarrow> annotated_post list \<Rightarrow> page_param \<Rightarrow> error + page" where
  "paginate_queryset page_size qs raw =
     (let page_number =
            (case raw of
               PageNone \<Rightarrow> Inr (PageInt 1)
             | PageEmpty \<Rightarrow> Inr (PageInt 1)
             | PageInt k \<Rightarrow> Inr (PageInt k)
             | PageLast \<Rightarrow>
                 (case num_pages page_size qs of
                    Inl e \<Rightarrow> Inl e
                  | Inr np \<Rightarrow> Inr (PageInt np))
             | PageOther \<Rightarrow> Inl Http404)
      in case page_number of
           Inl e \<Rightarrow> Inl e
         | Inr n \<Rightarrow>
             (case paginator_page page_size qs n of
                Inl EmptyPage \<Rightarrow> Inl Http404
              | Inl PageNotAnInteger \<Rightarrow> Inl Http404
              | Inl e \<Rightarrow> Inl e
              | Inr pg \<Rightarrow> Inr pg))"

text \<open>
  \<^verbatim>\<open>MultipleObjectMixin.get_context_data\<close>: the queryset is paginated when
  \<^verbatim>\<open>paginate_by\<close> is truthy; otherwise the context has no page and lists the whole
  queryset.
\<close>

definition list_context_data ::
  "nat \<Rightarrow> annotated_post list \<Rightarrow> page_param \<Rightarrow> error + (page option \<times> annotated_post list)" where
  "list_context_data paginate_by qs raw =
     (if paginate_by \<noteq> 0 then
        (case paginate_queryset paginate_by qs raw of
           Inl e \<Rightarrow> Inl e
         | Inr pg \<Rightarrow> Inr (Some pg, object_list pg))
      else Inr (None, qs))"

section \<open>The list views of \<^verbatim>\<open>blog/views.py\<close>\<close>

text \<open>
  \<^verbatim>\<open>PostListView.get_queryset\<close>: the model's rows in the view's \<^verbatim>\<open>ordering\<close>,
  annotated, and filtered on \<^verbatim>\<open>is_published\<close>, \<^verbatim>\<open>category__is_published\<close> and
  \<^verbatim>\<open>pub_date__lte\<close> the current time.
\<close>

definition PostListView_get_queryset :: "'d request \<Rightarrow> database \<Rightarrow> annotated_post list" where
  "PostListView_get_queryset rq db =
     filter (\<lambda>(p, n).
         post_is_published p
       \<and> (case category_of db p of None \<Rightarrow> False | Some c \<Rightarrow> cat_is_published c)
       \<and> post_pub_date p \<le> req_now rq)
       (annotate db (order_by_pub_date_desc (posts db)))"

text \<open>
  \<^verbatim>\<open>View.dispatch\<close> for a \<^verbatim>\<open>ListView\<close>: \<^verbatim>\<open>get\<close> (and \<^verbatim>\<open>head\<close>, which is
  \<^verbatim>\<open>get\<close>) and \<^verbatim>\<open>options\<close> are defined, every other method is not allowed.
\<close>

definition PostListView :: "'d app \<Rightarrow> 'd request \<Rightarrow> database \<Rightarrow> outcome \<times> database" where
  "PostListView app rq db =
     (if req_method rq = GET \<or> req_method rq = HEAD then
        (case list_context_data (POSTS_PER_PAGE app) (PostListView_get_queryset rq db)
                (req_page rq) of
           Inl e \<Rightarrow> (Inl e, db)
         | Inr (pg, ol) \<Rightarrow>
             (Inr (TemplateResponse ''blog/index.html'' (ListContext pg ol)), db))
      else if req_method rq = OPTIONS then (Inr OptionsResponse, db)
      else (Inr HttpResponseNotAllowed, db))"

definition CategoryListView_get_queryset ::
  "string \<Rightarrow> 'd request \<Rightarrow> database \<Rightarrow> annotated_post list" where
  "CategoryListView_get_queryset category_slug rq db =
     filter (\<lambda>(p, n).
         post_is_published p
       \<and> (case category_of db p of None \<Rightarrow> False | Some c \<Rightarrow> cat_is_published c)
       \<and> post_pub_date p \<le> req_now rq
       \<and> (case category_of db p of None \<Rightarrow> False | Some c \<Rightarrow> cat_slug c = category_slug))
       (annotate db (order_by_pub_date_desc (posts db)))"

text \<open>
  \<^verbatim>\<open>CategoryListView.get_context_data\<close>: the inherited context first (it
  paginates), then the category with the slug that is published, or \<^verbatim>\<open>Http404\<close>.
\<close>

definition CategoryListView ::
  "'d app \<Rightarrow> string \<Rightarrow> 'd request \<Rightarrow> database \<Rightarrow> outcome \<times> database" where
  "CategoryListView app category_slug rq db =
     (if req_method rq = GET \<or> req_method rq = HEAD then
        (case list_context_data (POSTS_PER_PAGE app)
                (CategoryListView_get_queryset category_slug rq db) (req_page rq) of
           Inl e \<Rightarrow> (Inl e, db)
         | Inr (pg, ol) \<Rightarrow>
             (case get_object_or_404
                     (\<lambda>c. cat_slug c = category_slug \<and> cat_is_published c = True)
                     (categories db) of
                Inl e \<Rightarrow> (Inl e, db)
              | Inr c \<Rightarrow>
                  (Inr (TemplateResponse ''blog/category.html'' (CategoryContext pg ol c)), db)))
      else if req_method rq = OPTIONS then (Inr OptionsResponse, db)
      else (Inr HttpResponseNotAllowed, db))"

text \<open>
  The function view \<^verbatim>\<open>profile\<close>: the user with the username or \<^verbatim>\<open>Http404\<close>; the
  user's posts, annotated, latest first; the page \<^verbatim>\<open>Paginator.get_page\<close> gives
  for the \<^verbatim>\<open>page\<close> parameter. A function view answers every method.
\<close>

definition profile_posts :: "user \<Rightarrow> database \<Rightarrow> annotated_post list" where
  "profile_posts prof db =
     annotate db
       (order_by_pub_date_desc (filter (\<lambda>p. post_author p = user_pk prof) (posts db)))"

definition profile :: "'d app \<Rightarrow> string \<Rightarrow> 'd request \<Rightarrow> database \<Rightarrow> outcome \<times> database" where
  "profile app slug rq db =
     (case get_object_or_404 (\<lambda>u. username u = slug) (users db) of
        Inl e \<Rightarrow> (Inl e, db)
      | Inr prof \<Rightarrow>
          (case get_page (POSTS_PER_PAGE app) (profile_posts prof db) (req_page rq) of
             Inl e \<Rightarrow> (Inl e, db)
           | Inr page_obj \<Rightarrow>
               (Inr (TemplateResponse ''blog/profile.html'' (ProfileContext prof page_obj)), db)))"

text \<open>What a response lists: the page object of its context and the posts shown.\<close>

fun response_page :: "outcome \<Rightarrow> page option" where
  "response_page (Inr (TemplateResponse _ (ListContext pg _))) = pg"
| "response_page (Inr (TemplateResponse _ (CategoryContext pg _ _))) = pg"
| "response_page (Inr (TemplateResponse _ (ProfileContext _ pg))) = Some pg"
| "response_page _ = None"

fun response_posts :: "outcome \<Rightarrow> annotated_post list" where
  "response_posts (Inr (TemplateResponse _ (ListContext _ ol))) = ol"
| "response_posts (Inr (TemplateResponse _ (CategoryContext _ ol _))) = ol"
| "response_posts (Inr (TemplateResponse _ (ProfileContext _ pg))) = object_list pg"
| "response_posts _ = []"

section \<open>Framework: authentication, saving and the generic edit views\<close>

text \<open>
  \<^verbatim>\<open>Model.__eq__\<close> between a user row, given by its primary key, and
  \<^verbatim>\<open>request.user\<close>: the anonymous user equals no row.
\<close>

fun user_eq :: "nat \<Rightarrow> request_user \<Rightarrow> bool" where
  "user_eq k AnonymousUser = False"
| "user_eq k (Authenticated u) = (k = user_pk u)"

text \<open>
  \<^verbatim>\<open>LoginRequiredMixin.dispatch\<close>: a user who is not authenticated gets
  \<^verbatim>\<open>handle_no_permission()\<close>, which redirects to the login page
  (\<^verbatim>\<open>raise_exception\<close> is not set); otherwise the next \<^verbatim>\<open>dispatch\<close> of the
  method resolution order runs.
\<close>

definition LoginRequiredMixin_dispatch ::
  "('d request \<Rightarrow> database \<Rightarrow> outcome \<times> database)
   \<Rightarrow> 'd request \<Rightarrow> database \<Rightarrow> outcome \<times> database" where
  "LoginRequiredMixin_dispatch super_dispatch rq db =
     (case req_user rq of
        AnonymousUser \<Rightarrow> (Inr (HttpResponseRedirect login_url), db)
      | Authenticated u \<Rightarrow> super_dispatch rq db)"

text \<open>\<^verbatim>\<open>Model.save()\<close> of a row that has a primary key, of a new row, and \<^verbatim>\<open>delete()\<close>.\<close>

definition fresh_pk :: "nat list \<Rightarrow> nat" where
  "fresh_pk ks = Suc (fold max ks 0)"

definition save_post :: "post \<Rightarrow> database \<Rightarrow> database" where
  "save_post p db =
     db\<lparr>posts := map (\<lambda>q. if post_pk q = post_pk p then p else q) (posts db)\<rparr>"

definition insert_post :: "post \<Rightarrow> database \<Rightarrow> database" where
  "insert_post p db =
     db\<lparr>posts := posts db @ [p\<lparr>post_pk := fresh_pk (map post_pk (posts db))\<rparr>]\<rparr>"

text \<open>
  Modelled from the spec: the \<^verbatim>\<open>on_delete\<close> rule of \<^verbatim>\<open>Comment.post\<close> is in the
  missing models; a comment belongs to one post, so the comments of a deleted post
  go with it.
\<close>

definition delete_post :: "post \<Rightarrow> database \<Rightarrow> database" where
  "delete_post p db =
     db\<lparr>posts := filter (\<lambda>q. post_pk q \<noteq> post_pk p) (posts db),
        comments := filter (\<lambda>c. comment_post c \<noteq> post_pk p) (comments db)\<rparr>"

definition save_comment :: "comment \<Rightarrow> database \<Rightarrow> database" where
  "save_comment c db =
     db\<lparr>comments := map (\<lambda>q. if comment_pk q = comment_pk c then c else q) (comments db)\<rparr>"

definition delete_comment :: "comment \<Rightarrow> database \<Rightarrow> database" where
  "delete_comment c db =
     db\<lparr>comments := filter (\<lambda>q. comment_pk q \<noteq> comment_pk c) (comments db)\<rparr>"

definition save_user :: "user \<Rightarrow> database \<Rightarrow> database" where
  "save_user u db =
     db\<lparr>users := map (\<lambda>q. if user_pk q = user_pk u then u else q) (users db)\<rparr>"

text \<open>
  \<^verbatim>\<open>View.dispatch\<close> of an \<^verbatim>\<open>UpdateView\<close>: \<^verbatim>\<open>get\<close> and \<^verbatim>\<open>head\<close> show the form
  of the object; \<^verbatim>\<open>post\<close> and \<^verbatim>\<open>put\<close> bind the form to the object, and a valid
  form is saved and answered with a redirect to the success address (looked up after
  the save), an invalid one is shown again. The view gives its \<^verbatim>\<open>get_object\<close>, its
  form with what \<^verbatim>\<open>form_valid\<close> adds, and its success address.
\<close>

definition UpdateView_dispatch ::
  "(database \<Rightarrow> error + 'o)
   \<Rightarrow> ('d request \<Rightarrow> 'o \<Rightarrow> error + 'o option)
   \<Rightarrow> ('o \<Rightarrow> database \<Rightarrow> database)
   \<Rightarrow> ('o \<Rightarrow> error + url)
   \<Rightarrow> ('o \<Rightarrow> response)
   \<Rightarrow> 'd request \<Rightarrow> database \<Rightarrow> outcome \<times> database" where
  "UpdateView_dispatch get_object form save get_success_url render rq db =
     (if req_method rq = GET \<or> req_method rq = HEAD then
        (case get_object db of
           Inl e \<Rightarrow> (Inl e, db)
         | Inr obj \<Rightarrow> (Inr (render obj), db))
      else if req_method rq = POST \<or> req_method rq = PUT then
        (case get_object db of
           Inl e \<Rightarrow> (Inl e, db)
         | Inr obj \<Rightarrow>
             (case form rq obj of
                Inl e \<Rightarrow> (Inl e, db)
              | Inr None \<Rightarrow> (Inr (render obj), db)
              | Inr (Some obj') \<Rightarrow>
                  (case get_success_url obj' of
                     Inl e \<Rightarrow> (Inl e, save obj' db)
                   | Inr u \<Rightarrow> (Inr (HttpResponseRedirect u), save obj' db))))
      else if req_method rq = OPTIONS then (Inr OptionsResponse, db)
      else (Inr HttpResponseNotAllowed, db))"

text \<open>
  \<^verbatim>\<open>DeletionMixin.delete\<close>: the object, then the success address, then the
  deletion and the redirect.
\<close>

definition DeletionMixin_delete ::
  "(database \<Rightarrow> error + 'o) \<Rightarrow> ('o \<Rightarrow> database \<Rightarrow> database) \<Rightarrow> ('o \<Rightarrow> url)
   \<Rightarrow> database \<Rightarrow> outcome \<times> database" where
  "DeletionMixin_delete get_object delete get_success_url db =
     (case get_object db of
        Inl e \<Rightarrow> (Inl e, db)
      | Inr obj \<Rightarrow> (Inr (HttpResponseRedirect (get_success_url obj)), delete obj db))"

section \<open>The edit views of \<^verbatim>\<open>blog/views.py\<close>\<close>

text \<open>
  \<^verbatim>\<open>UserUpdateView\<close>: \<^verbatim>\<open>dispatch\<close> looks the user up by username and raises
  \<^verbatim>\<open>PermissionDenied\<close> unless it is \<^verbatim>\<open>request.user\<close>; then
  \<^verbatim>\<open>LoginRequiredMixin\<close> and the update view run.
\<close>

definition UserUpdateView ::
  "'d app \<Rightarrow> string \<Rightarrow> 'd request \<Rightarrow> database \<Rightarrow> outcome \<times> database" where
  "UserUpdateView app slug rq db =
     (case get_object_or_404 (\<lambda>u. username u = slug) (users db) of
        Inl e \<Rightarrow> (Inl e, db)
      | Inr inst \<Rightarrow>
          if \<not> user_eq (user_pk inst) (req_user rq) then (Inl PermissionDenied, db)
          else LoginRequiredMixin_dispatch
                 (UpdateView_dispatch
                    (\<lambda>db. get_object_or_404 (\<lambda>u. username u = slug) (users db))
                    (\<lambda>rq obj. Inr (map_option (\<lambda>u. u\<lparr>user_pk := user_pk obj\<rparr>)
                                      (UserForm app (req_POST rq) (Some obj))))
                    save_user
                    (\<lambda>obj. Inr (profile_url (username obj)))
                    (\<lambda>obj. TemplateResponse ''blog/user.html'' (UserFormContext obj)))
                 rq db)"

text \<open>
  \<^verbatim>\<open>CommentUpdateView\<close> and \<^verbatim>\<open>CommentDeleteView\<close>: \<^verbatim>\<open>dispatch\<close> looks the
  comment up by \<^verbatim>\<open>pk\<close> and raises \<^verbatim>\<open>PermissionDenied\<close> unless its author is
  \<^verbatim>\<open>request.user\<close>; then \<^verbatim>\<open>LoginRequiredMixin\<close> and the generic view run.
\<close>

definition CommentUpdateView ::
  "'d app \<Rightarrow> nat \<Rightarrow> 'd request \<Rightarrow> database \<Rightarrow> outcome \<times> database" where
  "CommentUpdateView app pk rq db =
     (case get_object_or_404 (\<lambda>c. comment_pk c = pk) (comments db) of
        Inl e \<Rightarrow> (Inl e, db)
      | Inr inst \<Rightarrow>
          if \<not> user_eq (comment_author inst) (req_user rq) then (Inl PermissionDenied, db)
          else LoginRequiredMixin_dispatch
                 (UpdateView_dispatch
                    (\<lambda>db. get_object_or_404 (\<lambda>c. comment_pk c = pk) (comments db))
                    (\<lambda>rq obj. Inr (map_option (\<lambda>c. c\<lparr>comment_pk := comment_pk obj\<rparr>)
                                      (CommentForm app (req_POST rq) (Some obj))))
                    save_comment
                    (\<lambda>obj. Inr (post_detail_url (comment_post obj)))
                    (\<lambda>obj. TemplateResponse ''blog/comment.html'' (CommentFormContext obj)))
                 rq db)"

text \<open>
  A \<^verbatim>\<open>DeleteView\<close> shows the confirmation page on \<^verbatim>\<open>get\<close> and \<^verbatim>\<open>head\<close> and
  deletes on \<^verbatim>\<open>post\<close> and \<^verbatim>\<open>delete\<close>.
\<close>

definition CommentDeleteView ::
  "'d app \<Rightarrow> nat \<Rightarrow> 'd request \<Rightarrow> database \<Rightarrow> outcome \<times> database" where
  "CommentDeleteView app pk rq db =
     (case get_object_or_404 (\<lambda>c. comment_pk c = pk) (comments db) of
        Inl e \<Rightarrow> (Inl e, db)
      | Inr inst \<Rightarrow>
          if \<not> user_eq (comment_author inst) (req_user rq) then (Inl PermissionDenied, db)
          else LoginRequiredMixin_dispatch
                 (\<lambda>rq db.
                    if req_method rq = GET \<or> req_method rq = HEAD then
                      (case get_object_or_404 (\<lambda>c. comment_pk c = pk) (comments db) of
                         Inl e \<Rightarrow> (Inl e, db)
                       | Inr obj \<Rightarrow>
                           (Inr (TemplateResponse ''blog/comment.html''
                                   (CommentFormContext obj)), db))
                    else if req_method rq = POST \<or> req_method rq = DELETE then
                      DeletionMixin_delete
                        (\<lambda>db. get_object_or_404 (\<lambda>c. comment_pk c = pk) (comments db))
                        delete_comment
                        (\<lambda>obj. post_detail_url (comment_post obj)) db
                    else if req_method rq = OPTIONS then (Inr OptionsResponse, db)
                    else (Inr HttpResponseNotAllowed, db))
                 rq db)"

text \<open>
  \<^verbatim>\<open>PostUpdateView(UpdateView, LoginRequiredMixin)\<close>: \<^verbatim>\<open>dispatch\<close> looks the
  post up by \<^verbatim>\<open>pk\<close> and redirects to the post's page unless its author is
  \<^verbatim>\<open>request.user\<close>; then the update view runs. The mixin stands after
  \<^verbatim>\<open>UpdateView\<close> in the bases, so \<^verbatim>\<open>View.dispatch\<close> answers before the mixin's
  \<^verbatim>\<open>dispatch\<close> is reached. \<^verbatim>\<open>form_valid\<close> sets the author to \<^verbatim>\<open>request.user\<close>
  (assigning the anonymous user raises \<^verbatim>\<open>ValueError\<close>), and the success address
  is the post's \<^verbatim>\<open>get_absolute_url()\<close>.
\<close>

definition PostUpdateView_form ::
  "'d app \<Rightarrow> 'd request \<Rightarrow> post \<Rightarrow> error + post option" where
  "PostUpdateView_form app rq obj =
     (case PostForm app (req_POST rq) (Some obj) of
        None \<Rightarrow> Inr None
      | Some p \<Rightarrow>
          (case req_user rq of
             AnonymousUser \<Rightarrow> Inl ValueError
           | Authenticated u \<Rightarrow>
               Inr (Some (p\<lparr>post_pk := post_pk obj, post_author := user_pk u\<rparr>))))"

definition PostUpdateView ::
  "'d app \<Rightarrow> nat \<Rightarrow> 'd request \<Rightarrow> database \<Rightarrow> outcome \<times> database" where
  "PostUpdateView app pk rq db =
     (case get_object_or_404 (\<lambda>p. post_pk p = pk) (posts db) of
        Inl e \<Rightarrow> (Inl e, db)
      | Inr inst \<Rightarrow>
          if \<not> user_eq (post_author inst) (req_user rq)
          then (Inr (HttpResponseRedirect (post_detail_url pk)), db)
          else UpdateView_dispatch
                 (\<lambda>db. get_object_or_404 (\<lambda>p. post_pk p = pk) (posts db))
                 (PostUpdateView_form app)
                 save_post
                 (\<lambda>obj. case Post_get_absolute_url app of
                           None \<Rightarrow> Inl ImproperlyConfigured
                         | Some f \<Rightarrow> Inr (f obj))
                 (\<lambda>obj. TemplateResponse ''blog/create.html'' (PostFormContext (Some obj)))
                 rq db)"

text \<open>
  \<^verbatim>\<open>PostDeleteView(DeletionMixin, PostUpdateView)\<close>: the \<^verbatim>\<open>dispatch\<close> of
  \<^verbatim>\<open>PostUpdateView\<close>; \<^verbatim>\<open>post\<close> and \<^verbatim>\<open>delete\<close> are the mixin's, \<^verbatim>\<open>put\<close> calls
  \<^verbatim>\<open>post\<close>, \<^verbatim>\<open>get\<close> shows the form. The success address is the index.
\<close>

definition PostDeleteView ::
  "'d app \<Rightarrow> nat \<Rightarrow> 'd request \<Rightarrow> database \<Rightarrow> outcome \<times> database" where
  "PostDeleteView app pk rq db =
     (case get_object_or_404 (\<lambda>p. post_pk p = pk) (posts db) of
        Inl e \<Rightarrow> (Inl e, db)
      | Inr inst \<Rightarrow>
          if \<not> user_eq (post_author inst) (req_user rq)
          then (Inr (HttpResponseRedirect (post_detail_url pk)), db)
          else if req_method rq = GET \<or> req_method rq = HEAD then
            (case get_object_or_404 (\<lambda>p. post_pk p = pk) (posts db) of
               Inl e \<Rightarrow> (Inl e, db)
             | Inr obj \<Rightarrow>
                 (Inr (TemplateResponse ''blog/create.html'' (PostFormContext (Some obj))), db))
          else if req_method rq = POST \<or> req_method rq = PUT \<or> req_method rq = DELETE then
            DeletionMixin_delete
              (\<lambda>db. get_object_or_404 (\<lambda>p. post_pk p = pk) (posts db))
              delete_post (\<lambda>obj. index_url) db
          else if req_method rq = OPTIONS then (Inr OptionsResponse, db)
          else (Inr HttpResponseNotAllowed, db))"

text \<open>
  \<^verbatim>\<open>PostCreateView(LoginRequiredMixin, CreateView)\<close>: the mixin first; \<^verbatim>\<open>get\<close>
  shows the empty form; \<^verbatim>\<open>post\<close> and \<^verbatim>\<open>put\<close> validate the form, set the author
  to \<^verbatim>\<open>request.user\<close>, insert the post and redirect to the author's profile.
\<close>

definition PostCreateView :: "'d app \<Rightarrow> 'd request \<Rightarrow> database \<Rightarrow> outcome \<times> database" where
  "PostCreateView app rq db =
     LoginRequiredMixin_dispatch
       (\<lambda>rq db.
          if req_method rq = GET \<or> req_method rq = HEAD then
            (Inr (TemplateResponse ''blog/create.html'' (PostFormContext None)), db)
          else if req_method rq = POST \<or> req_method rq = PUT then
            (case PostForm app (req_POST rq) None of
               None \<Rightarrow> (Inr (TemplateResponse ''blog/create.html'' (PostFormContext None)), db)
             | Some p \<Rightarrow>
                 (case req_user rq of
                    AnonymousUser \<Rightarrow> (Inl ValueError, db)
                  | Authenticated u \<Rightarrow>
                      (Inr (HttpResponseRedirect (profile_url (username u))),
                       insert_post (p\<lparr>post_author := user_pk u\<rparr>) db)))
          else if req_method rq = OPTIONS then (Inr OptionsResponse, db)
          else (Inr HttpResponseNotAllowed, db))
       rq db"

text \<open>
  \<^verbatim>\<open>PostDetailView\<close>: a \<^verbatim>\<open>DetailView\<close> over all posts; the context has the post
  with the \<^verbatim>\<open>pk\<close> and its comments.
\<close>

definition PostDetailView ::
  "'d app \<Rightarrow> nat \<Rightarrow> 'd request \<Rightarrow> database \<Rightarrow> outcome \<times> database" where
  "PostDetailView app pk rq db =
     (if req_method rq = GET \<or> req_method rq = HEAD then
        (case get_object_or_404 (\<lambda>p. post_pk p = pk) (posts db) of
           Inl e \<Rightarrow> (Inl e, db)
         | Inr obj \<Rightarrow>
             (Inr (TemplateResponse ''blog/detail.html''
                     (DetailContext obj
                        (filter (\<lambda>c. comment_post c = post_pk obj) (comments db)))), db))
      else if req_method rq = OPTIONS then (Inr OptionsResponse, db)
      else (Inr HttpResponseNotAllowed, db))"

text \<open>
  The visibility predicate of the two listings, and the post a detail response gives.
\<close>

definition visible :: "database \<Rightarrow> int \<Rightarrow> post \<Rightarrow> bool" where
  "visible db now p \<longleftrightarrow>
     post_is_published p
     \<and> (case category_of db p of None \<Rightarrow> False | Some c \<Rightarrow> cat_is_published c)
     \<and> post_pub_date p \<le> now"

fun response_post :: "outcome \<Rightarrow> post option" where
  "response_post (Inr (TemplateResponse _ (DetailContext p _))) = Some p"
| "response_post _ = None"

section \<open>Example data\<close>

text \<open>
  A small blog on which the theorems below are tried: two users, a published and an
  unpublished category, and five posts of which one is a draft, one is in the
  unpublished category and one is scheduled after the time of the requests. The forms
  accept any non-empty text.
\<close>

definition alice :: user where
  "alice = \<lparr>user_pk = 1, username = ''alice'', first_name = ''Alice'', last_name = ''A'',
             email = ''alice@example.org''\<rparr>"

definition bob :: user where
  "bob = \<lparr>user_pk = 2, username = ''bob'', first_name = ''Bob'', last_name = ''B'',
           email = ''bob@example.org''\<rparr>"

definition travel :: category where
  "travel = \<lparr>cat_pk = 1, cat_title = ''Travel'', cat_slug = ''travel'',
              cat_description = ''On the road'', cat_is_published = True, cat_created_at = 0\<rparr>"

definition hidden :: category where
  "hidden = \<lparr>cat_pk = 2, cat_title = ''Hidden'', cat_slug = ''hidden'',
              cat_description = ''Not yet'', cat_is_published = False, cat_created_at = 0\<rparr>"

definition post1 :: post where
  "post1 = \<lparr>post_pk = 1, post_title = ''First'', post_text = ''Hello'', post_pub_date = 10,
             post_is_published = True, post_author = 1, post_category = Some 1,
             post_location = None, post_created_at = 1\<rparr>"

definition post2 :: post where
  "post2 = \<lparr>post_pk = 2, post_title = ''Draft'', post_text = ''Unfinished'', post_pub_date = 20,
             post_is_published = False, post_author = 1, post_category = Some 1,
             post_location = None, post_created_at = 2\<rparr>"

definition post3 :: post where
  "post3 = \<lparr>post_pk = 3, post_title = ''Third'', post_text = ''In a hidden category'',
             post_pub_date = 30, post_is_published = True, post_author = 2,
             post_category = Some 2, post_location = None, post_created_at = 3\<rparr>"

definition post4 :: post where
  "post4 = \<lparr>post_pk = 4, post_title = ''Fourth'', post_text = ''Scheduled'',
             post_pub_date = 1000, post_is_published = True, post_author = 1,
             post_category = Some 1, post_location = None, post_created_at = 4\<rparr>"

definition post5 :: post where
  "post5 = \<lparr>post_pk = 5, post_title = ''Fifth'', post_text = ''Again'',
             post_pub_date = 40, post_is_published = True, post_author = 1,
             post_category = Some 1, post_location = None, post_created_at = 5\<rparr>"

definition comment1 :: comment where
  "comment1 = \<lparr>comment_pk = 1, comment_text = ''Nice'', comment_author = 2, comment_post = 1,
                comment_created_at = 50\<rparr>"

definition blog :: database where
  "blog = \<lparr>users = [alice, bob], categories = [travel, hidden], locations = [],
            posts = [post1, post2, post3, post4, post5], comments = [comment1]\<rparr>"

definition blank_post :: post where
  "blank_post = \<lparr>post_pk = 0, post_title = [], post_text = [], post_pub_date = 0,
      post_is_published = True, post_author = 0, post_category = None,
      post_location = None, post_created_at = 0\<rparr>"

definition blank_comment :: comment where
  "blank_comment = \<lparr>comment_pk = 0, comment_text = [], comment_author = 0, comment_post = 0,
      comment_created_at = 0\<rparr>"

definition blank_user :: user where
  "blank_user = \<lparr>user_pk = 0, username = [], first_name = [], last_name = [], email = []\<rparr>"

definition site :: "string app" where
  "site = \<lparr>POSTS_PER_PAGE = 2,
      PostForm = (\<lambda>d inst. if d = [] then None
                    else Some ((case inst of None \<Rightarrow> blank_post | Some p \<Rightarrow> p)\<lparr>post_text := d\<rparr>)),
      CommentForm = (\<lambda>d inst. if d = [] then None
                    else Some ((case inst of None \<Rightarrow> blank_comment | Some c \<Rightarrow> c)\<lparr>comment_text := d\<rparr>)),
      UserForm = (\<lambda>d inst. if d = [] then None
                    else Some ((case inst of None \<Rightarrow> blank_user | Some u \<Rightarrow> u)\<lparr>first_name := d\<rparr>)),
      Post_get_absolute_url = Some (\<lambda>p. post_detail_url (post_pk p))\<rparr>"

definition browse :: "request_user \<Rightarrow> page_param \<Rightarrow> string request" where
  "browse u pg = \<lparr>req_method = GET, req_user = u, req_page = pg, req_POST = [], req_now = 100\<rparr>"

definition submit :: "request_user \<Rightarrow> string \<Rightarrow> string request" where
  "submit u d = \<lparr>req_method = POST, req_user = u, req_page = PageNone, req_POST = d, req_now = 100\<rparr>"

section \<open>Pagination and the listings\<close>

lemma paginator_page_slice:
  assumes "paginator_page per_page xs n = Inr pg"
  shows "set (object_list pg) \<subseteq> set xs" and "length (object_list pg) \<le> per_page"
proof -
  from assms obtain k np where
    pg: "pg = \<lparr>object_list =
             drop ((nat k - 1) * per_page)
               (take (if (nat k - 1) * per_page + per_page \<ge> length xs then length xs
                      else (nat k - 1) * per_page + per_page) xs),
           number = k, paginator_num_pages = np\<rparr>"
    by (auto simp: paginator_page_def Let_def split: sum.splits)
  show "set (object_list pg) \<subseteq> set xs"
    unfolding pg by (auto dest: in_set_dropD in_set_takeD)
  show "length (object_list pg) \<le> per_page"
    unfolding pg by auto
qed

lemma paginate_queryset_slice:
  assumes "paginate_queryset page_size qs raw = Inr pg"
  shows "set (object_list pg) \<subseteq> set qs" and "length (object_list pg) \<le> page_size"
proof -
  from assms obtain n where "paginator_page page_size qs n = Inr pg"
    by (auto simp: paginate_queryset_def Let_def split: sum.splits page_param.splits error.splits)
  then show "set (object_list pg) \<subseteq> set qs" and "length (object_list pg) \<le> page_size"
    by (rule paginator_page_slice)+
qed

lemma get_page_slice:
  assumes "get_page per_page xs raw = Inr pg"
  shows "set (object_list pg) \<subseteq> set xs" and "length (object_list pg) \<le> per_page"
proof -
  from assms obtain n where "paginator_page per_page xs n = Inr pg"
    by (auto simp: get_page_def split: sum.splits error.splits)
  then show "set (object_list pg) \<subseteq> set xs" and "length (object_list pg) \<le> per_page"
    by (rule paginator_page_slice)+
qed

lemma list_context_data_subset:
  assumes "list_context_data paginate_by qs raw = Inr (pg, ol)"
  shows "set ol \<subseteq> set qs"
  using assms paginate_queryset_slice(1) [of paginate_by qs raw]
  by (auto simp: list_context_data_def split: if_splits sum.splits)

lemma list_context_data_page:
  assumes "list_context_data paginate_by qs raw = Inr (Some pg, ol)"
  shows "ol = object_list pg \<and> length (object_list pg) \<le> paginate_by"
  using assms paginate_queryset_slice(2) [of paginate_by qs raw]
  by (auto simp: list_context_data_def split: if_splits sum.splits)

lemma PostListView_posts_subset:
  "set (response_posts (fst (PostListView app rq db))) \<subseteq> set (PostListView_get_queryset rq db)"
proof (cases "list_context_data (POSTS_PER_PAGE app) (PostListView_get_queryset rq db) (req_page rq)")
  case (Inl e)
  then show ?thesis by (simp add: PostListView_def)
next
  case (Inr r)
  obtain pg ol where r: "r = (pg, ol)" by (cases r)
  from Inr r list_context_data_subset show ?thesis
    by (auto simp: PostListView_def)
qed

lemma CategoryListView_posts_subset:
  "set (response_posts (fst (CategoryListView app slug rq db)))
     \<subseteq> set (CategoryListView_get_queryset slug rq db)"
proof (cases "list_context_data (POSTS_PER_PAGE app)
                (CategoryListView_get_queryset slug rq db) (req_page rq)")
  case (Inl e)
  then show ?thesis by (simp add: CategoryListView_def)
next
  case (Inr r)
  obtain pg ol where r: "r = (pg, ol)" by (cases r)
  from Inr r list_context_data_subset show ?thesis
    by (auto simp: CategoryListView_def split: sum.splits)
qed

text \<open>
  Claim C1. A post that the home listing or a category listing shows is a post of the
  database with \<^verbatim>\<open>is_published\<close> true, whose category exists and is published, and
  whose \<^verbatim>\<open>pub_date\<close> is not after the time of the request. So both listings exclude
  every post that is unpublished, or in an unpublished category, or dated in the future.
\<close>

theorem public_listings_only_visible:
  "(pa \<in> set (response_posts (fst (PostListView app rq db))) \<longrightarrow>
      fst pa \<in> set (posts db)
      \<and> post_is_published (fst pa)
      \<and> (\<exists>c. category_of db (fst pa) = Some c \<and> cat_is_published c)
      \<and> post_pub_date (fst pa) \<le> req_now rq)
   \<and> (pa \<in> set (response_posts (fst (CategoryListView app slug rq db))) \<longrightarrow>
      fst pa \<in> set (posts db)
      \<and> post_is_published (fst pa)
      \<and> (\<exists>c. category_of db (fst pa) = Some c \<and> cat_is_published c)
      \<and> post_pub_date (fst pa) \<le> req_now rq)"
proof (intro conjI impI)
  assume "pa \<in> set (response_posts (fst (PostListView app rq db)))"
  with PostListView_posts_subset have q: "pa \<in> set (PostListView_get_queryset rq db)"
    by blast
  then show "fst pa \<in> set (posts db)" "post_is_published (fst pa)"
    "\<exists>c. category_of db (fst pa) = Some c \<and> cat_is_published c"
    "post_pub_date (fst pa) \<le> req_now rq"
    by (auto simp: PostListView_get_queryset_def annotate_def order_by_pub_date_desc_def
        split: option.splits)
next
  assume "pa \<in> set (response_posts (fst (CategoryListView app slug rq db)))"
  with CategoryListView_posts_subset
  have q: "pa \<in> set (CategoryListView_get_queryset slug rq db)"
    by blast
  then show "fst pa \<in> set (posts db)" "post_is_published (fst pa)"
    "\<exists>c. category_of db (fst pa) = Some c \<and> cat_is_published c"
    "post_pub_date (fst pa) \<le> req_now rq"
    by (auto simp: CategoryListView_get_queryset_def annotate_def order_by_pub_date_desc_def
        split: option.splits)
qed

theorem public_listings_only_visible_witness:
  "(post5, 0) \<in> set (response_posts (fst (PostListView site (browse AnonymousUser PageNone) blog)))
   \<and> (post5, 0) \<in> set (response_posts
          (fst (CategoryListView site ''travel'' (browse AnonymousUser PageNone) blog)))
   \<and> post5 \<in> set (posts blog)
   \<and> post_is_published post5
   \<and> (\<exists>c. category_of blog post5 = Some c \<and> cat_is_published c)
   \<and> post_pub_date post5 \<le> 100"
proof -
  have a: "(post5, 0) \<in> set (response_posts
             (fst (PostListView site (browse AnonymousUser PageNone) blog)))"
    by code_simp
  have b: "(post5, 0) \<in> set (response_posts
             (fst (CategoryListView site ''travel'' (browse AnonymousUser PageNone) blog)))"
    by code_simp
  from a b public_listings_only_visible
    [where pa = "(post5, 0)" and app = site and rq = "browse AnonymousUser PageNone"
       and db = blog and slug = "''travel''"]
  show ?thesis by (simp add: browse_def)
qed

text \<open>
  Claim C7. Whenever the home listing, a category listing or a profile listing answers
  with a page, whatever the page number asked for, the page holds at most
  \<^verbatim>\<open>POSTS_PER_PAGE\<close> posts, and these are the posts the response shows.
\<close>

theorem page_size_bound:
  "(response_page (fst (PostListView app rq db)) = Some pg \<longrightarrow>
      length (object_list pg) \<le> POSTS_PER_PAGE app
      \<and> response_posts (fst (PostListView app rq db)) = object_list pg)
   \<and> (response_page (fst (CategoryListView app category_slug rq db)) = Some pg \<longrightarrow>
      length (object_list pg) \<le> POSTS_PER_PAGE app
      \<and> response_posts (fst (CategoryListView app category_slug rq db)) = object_list pg)
   \<and> (response_page (fst (profile app slug rq db)) = Some pg \<longrightarrow>
      length (object_list pg) \<le> POSTS_PER_PAGE app
      \<and> response_posts (fst (profile app slug rq db)) = object_list pg)"
proof (intro conjI impI)
  assume h: "response_page (fst (PostListView app rq db)) = Some pg"
  then obtain ol where
    "list_context_data (POSTS_PER_PAGE app) (PostListView_get_queryset rq db) (req_page rq)
       = Inr (Some pg, ol)"
    and "response_posts (fst (PostListView app rq db)) = ol"
    by (auto simp: PostListView_def split: if_splits sum.splits prod.splits)
  with list_context_data_page
  show "length (object_list pg) \<le> POSTS_PER_PAGE app"
    and "response_posts (fst (PostListView app rq db)) = object_list pg"
    by metis+
next
  assume h: "response_page (fst (CategoryListView app category_slug rq db)) = Some pg"
  then obtain ol where
    "list_context_data (POSTS_PER_PAGE app)
       (CategoryListView_get_queryset category_slug rq db) (req_page rq) = Inr (Some pg, ol)"
    and "response_posts (fst (CategoryListView app category_slug rq db)) = ol"
    by (auto simp: CategoryListView_def split: if_splits sum.splits prod.splits)
  with list_context_data_page
  show "length (object_list pg) \<le> POSTS_PER_PAGE app"
    and "response_posts (fst (CategoryListView app category_slug rq db)) = object_list pg"
    by metis+
next
  assume h: "response_page (fst (profile app slug rq db)) = Some pg"
  then obtain prof where
    g: "get_page (POSTS_PER_PAGE app) (profile_posts prof db) (req_page rq) = Inr pg"
    and "response_posts (fst (profile app slug rq db)) = object_list pg"
    by (auto simp: profile_def split: sum.splits)
  with get_page_slice(2)
  show "length (object_list pg) \<le> POSTS_PER_PAGE app"
    and "response_posts (fst (profile app slug rq db)) = object_list pg"
    by metis+
qed

theorem page_size_bound_witness:
  "response_page (fst (PostListView site (browse AnonymousUser (PageInt 1)) blog))
     = Some \<lparr>object_list = [(post5, 0), (post1, 1)], number = 1, paginator_num_pages = 1\<rparr>
   \<and> response_page (fst (CategoryListView site ''travel'' (browse AnonymousUser (PageInt 1)) blog))
     = Some \<lparr>object_list = [(post5, 0), (post1, 1)], number = 1, paginator_num_pages = 1\<rparr>
   \<and> response_page (fst (profile site ''alice'' (browse AnonymousUser (PageInt 2)) blog))
     = Some \<lparr>object_list = [(post2, 0), (post1, 1)], number = 2, paginator_num_pages = 2\<rparr>
   \<and> length [(post5, 0::nat), (post1, 1)] \<le> POSTS_PER_PAGE site
   \<and> length [(post2, 0::nat), (post1, 1)] \<le> POSTS_PER_PAGE site"
proof -
  let ?rq = "browse AnonymousUser (PageInt 1)"
  let ?pg = "\<lparr>object_list = [(post5, 0), (post1, 1)], number = 1, paginator_num_pages = 1\<rparr>"
  let ?pg' = "\<lparr>object_list = [(post2, 0), (post1, 1)], number = 2, paginator_num_pages = 2\<rparr>"
  have a: "response_page (fst (PostListView site ?rq blog)) = Some ?pg"
    by code_simp
  have b: "response_page (fst (CategoryListView site ''travel'' ?rq blog)) = Some ?pg"
    by code_simp
  have c: "response_page (fst (profile site ''alice'' (browse AnonymousUser (PageInt 2)) blog))
             = Some ?pg'"
    by code_simp
  from a b page_size_bound
    [where app = site and rq = ?rq and db = blog and pg = ?pg and category_slug = "''travel''"]
  have "length (object_list ?pg) \<le> POSTS_PER_PAGE site" by blast
  moreover from c page_size_bound
    [where app = site and rq = "browse AnonymousUser (PageInt 2)" and db = blog and pg = ?pg'
       and slug = "''alice''"]
  have "length (object_list ?pg') \<le> POSTS_PER_PAGE site" by blast
  ultimately show ?thesis using a b c by simp
qed

section \<open>The profile listing\<close>

lemma num_pages_pos:
  assumes "0 < per_page"
  shows "num_pages per_page xs = Inr (int (pages_count per_page xs))"
    and "1 \<le> pages_count per_page xs"
    and "length xs \<le> pages_count per_page xs * per_page"
proof -
  let ?h = "max 1 (length xs)"
  show "num_pages per_page xs = Inr (int (pages_count per_page xs))"
    using assms by (simp add: num_pages_def pages_count_def)
  have "per_page \<le> ?h + per_page - 1" by simp
  then have "per_page div per_page \<le> (?h + per_page - 1) div per_page"
    by (rule div_le_mono)
  with assms show "1 \<le> pages_count per_page xs"
    by (simp add: pages_count_def)
  have "?h + per_page - 1 < ((?h + per_page - 1) div per_page) * per_page + per_page"
    using assms by (metis add.commute div_mult_mod_eq add_less_cancel_left mod_less_divisor mult.commute)
  then have "?h \<le> ((?h + per_page - 1) div per_page) * per_page" by linarith
  then show "length xs \<le> pages_count per_page xs * per_page"
    by (simp add: pages_count_def)
qed

lemma paginator_page_valid:
  assumes pp: "0 < per_page" and k: "1 \<le> k" "k \<le> pages_count per_page xs"
  shows "paginator_page per_page xs (PageInt (int k)) =
           Inr \<lparr>object_list = take per_page (drop ((k - 1) * per_page) xs),
                number = int k, paginator_num_pages = int (pages_count per_page xs)\<rparr>"
proof -
  have v: "validate_number per_page xs (PageInt (int k)) = Inr (int k)"
    using k num_pages_pos(1) [OF pp, of xs] by (simp add: validate_number_def)
  show ?thesis
    using v num_pages_pos(1) [OF pp, of xs]
    by (simp add: paginator_page_def Let_def drop_take)
qed

lemma get_page_valid:
  assumes pp: "0 < per_page" and k: "1 \<le> k" "k \<le> pages_count per_page xs"
  shows "get_page per_page xs (PageInt (int k)) =
           Inr \<lparr>object_list = take per_page (drop ((k - 1) * per_page) xs),
                number = int k, paginator_num_pages = int (pages_count per_page xs)\<rparr>"
proof -
  have v: "validate_number per_page xs (PageInt (int k)) = Inr (int k)"
    using k num_pages_pos(1) [OF pp, of xs] by (simp add: validate_number_def)
  show ?thesis
    using v paginator_page_valid [OF pp k] by (simp add: get_page_def)
qed

lemma get_page_total:
  assumes pp: "0 < per_page"
  shows "\<exists>k. 1 \<le> k \<and> k \<le> pages_count per_page xs
           \<and> get_page per_page xs raw =
               Inr \<lparr>object_list = take per_page (drop ((k - 1) * per_page) xs),
                    number = int k, paginator_num_pages = int (pages_count per_page xs)\<rparr>"
proof -
  let ?np = "pages_count per_page xs"
  note np = num_pages_pos [OF pp, of xs]
  consider (ok) k where "validate_number per_page xs raw = Inr (int k)" "1 \<le> k" "k \<le> ?np"
    | (noint) "validate_number per_page xs raw = Inl PageNotAnInteger"
    | (empty) "validate_number per_page xs raw = Inl EmptyPage"
  proof (cases raw)
    case (PageInt i)
    show ?thesis
    proof (cases "1 \<le> i \<and> i \<le> int ?np")
      case True
      then have "validate_number per_page xs raw = Inr (int (nat i))" "1 \<le> nat i" "nat i \<le> ?np"
        using PageInt np(1) by (auto simp: validate_number_def)
      then show ?thesis by (rule ok)
    next
      case False
      then have "validate_number per_page xs raw = Inl EmptyPage"
        using PageInt np(1) by (auto simp: validate_number_def)
      then show ?thesis by (rule empty)
    qed
  qed (auto simp: validate_number_def intro: noint)
  then show ?thesis
  proof cases
    case (ok k)
    then show ?thesis
      using paginator_page_valid [OF pp ok(2,3)] by (auto simp: get_page_def)
  next
    case noint
    have "1 \<le> (1::nat)" "1 \<le> ?np" using np(2) by simp_all
    from paginator_page_valid [OF pp this] noint show ?thesis
      using np(2) by (auto simp: get_page_def intro!: exI [of _ 1])
  next
    case empty
    have "1 \<le> ?np" "?np \<le> ?np" using np(2) by simp_all
    from paginator_page_valid [OF pp this] empty np(1) show ?thesis
      using np(2) by (auto simp: get_page_def intro!: exI [of _ ?np])
  qed
qed

lemma concat_chunks:
  "0 < n \<Longrightarrow> length xs \<le> m * n \<Longrightarrow>
     concat (map (\<lambda>i. take n (drop (i * n) xs)) [0..<m]) = xs"
proof (induction m arbitrary: xs)
  case 0
  then show ?case by simp
next
  case (Suc m)
  have "length (drop n xs) \<le> m * n" using Suc.prems by simp
  from Suc.IH [OF Suc.prems(1) this]
  have ih: "concat (map (\<lambda>i. take n (drop (i * n + n) xs)) [0..<m]) = drop n xs"
    by (simp add: add.commute)
  have "[0..<Suc m] = 0 # map Suc [0..<m]"
    by (simp add: upt_conv_Cons map_Suc_upt del: upt_Suc)
  then have "concat (map (\<lambda>i. take n (drop (i * n) xs)) [0..<Suc m])
        = take n xs @ concat (map (\<lambda>i. take n (drop (i * n + n) xs)) [0..<m])"
    by (simp add: comp_def add.commute del: upt_Suc)
  with ih show ?case by simp
qed

lemma get_page_pages_cover:
  assumes pp: "0 < per_page"
  shows "concat (map (\<lambda>k. case get_page per_page xs (PageInt (int k)) of
                            Inl e \<Rightarrow> [] | Inr pg \<Rightarrow> object_list pg)
                   [1..<Suc (pages_count per_page xs)]) = xs"
proof -
  let ?np = "pages_count per_page xs"
  have "map (\<lambda>k. case get_page per_page xs (PageInt (int k)) of
                    Inl e \<Rightarrow> [] | Inr pg \<Rightarrow> object_list pg) [1..<Suc ?np]
        = map (\<lambda>k. take per_page (drop ((k - 1) * per_page) xs)) [1..<Suc ?np]"
  proof (rule map_cong [OF refl])
    fix k assume "k \<in> set [1..<Suc ?np]"
    then have "1 \<le> k" "k \<le> ?np" by auto
    from get_page_valid [OF pp this]
    show "(case get_page per_page xs (PageInt (int k)) of Inl e \<Rightarrow> [] | Inr pg \<Rightarrow> object_list pg)
            = take per_page (drop ((k - 1) * per_page) xs)"
      by simp
  qed
  also have "\<dots> = map (\<lambda>i. take per_page (drop (i * per_page) xs)) [0..<?np]"
    by (simp add: map_Suc_upt [symmetric] comp_def del: upt_Suc)
  finally show ?thesis
    using concat_chunks [OF pp num_pages_pos(3) [OF pp, of xs]] by simp
qed

lemma profile_posts_all:
  "mset (map fst (profile_posts prof db))
     = mset (filter (\<lambda>p. post_author p = user_pk prof) (posts db))"
  by (simp add: profile_posts_def annotate_def order_by_pub_date_desc_def comp_def)

lemma profile_posts_sorted:
  "sorted_wrt (\<lambda>a b. post_pub_date (fst a) \<ge> post_pub_date (fst b)) (profile_posts prof db)"
proof -
  let ?ps = "order_by_pub_date_desc (filter (\<lambda>p. post_author p = user_pk prof) (posts db))"
  have "sorted (map (\<lambda>p. - post_pub_date p) ?ps)"
    by (simp add: order_by_pub_date_desc_def)
  then have "sorted_wrt (\<lambda>p q. post_pub_date p \<ge> post_pub_date q) ?ps"
    by (simp add: sorted_map sorted_wrt_iff_nth_less)
  then show ?thesis
    by (simp add: profile_posts_def annotate_def sorted_wrt_map)
qed

lemma profile_posts_counts:
  "list_all (\<lambda>(p, n). n = length (filter (\<lambda>c. comment_post c = post_pk p) (comments db)))
     (profile_posts prof db)"
  by (simp add: profile_posts_def annotate_def comment_count_def list_all_iff)

text \<open>
  Claim C6. For a username that names a user, and a positive page size, the profile
  view answers every request, whoever sends it, with a page of the user's listing.
  The listing holds exactly the posts whose author is that user, with no condition on
  \<^verbatim>\<open>is_published\<close>, the category or \<^verbatim>\<open>pub_date\<close>; it is ordered by \<^verbatim>\<open>pub_date\<close>
  descending; every post carries the number of its comments; and the pages
  \<^verbatim>\<open>1\<close> to \<^verbatim>\<open>num_pages\<close>, one after the other, give the whole listing.
\<close>

theorem profile_lists_all_posts_of_user:
  assumes "get_object_or_404 (\<lambda>u. username u = slug) (users db) = Inr prof"
    and "0 < POSTS_PER_PAGE app"
  shows "(\<exists>k. 1 \<le> k \<and> k \<le> pages_count (POSTS_PER_PAGE app) (profile_posts prof db)
            \<and> profile app slug rq db =
                (Inr (TemplateResponse ''blog/profile.html''
                   (ProfileContext prof
                      \<lparr>object_list = take (POSTS_PER_PAGE app)
                          (drop ((k - 1) * POSTS_PER_PAGE app) (profile_posts prof db)),
                       number = int k,
                       paginator_num_pages =
                         int (pages_count (POSTS_PER_PAGE app) (profile_posts prof db))\<rparr>)), db))
     \<and> concat (map (\<lambda>k. response_posts
                           (fst (profile app slug (rq\<lparr>req_page := PageInt (int k)\<rparr>) db)))
                  [1..<Suc (pages_count (POSTS_PER_PAGE app) (profile_posts prof db))])
         = profile_posts prof db
     \<and> mset (map fst (profile_posts prof db))
         = mset (filter (\<lambda>p. post_author p = user_pk prof) (posts db))
     \<and> sorted_wrt (\<lambda>a b. post_pub_date (fst a) \<ge> post_pub_date (fst b)) (profile_posts prof db)
     \<and> list_all (\<lambda>(p, n). n = length (filter (\<lambda>c. comment_post c = post_pk p) (comments db)))
         (profile_posts prof db)
     \<and> profile app slug (rq\<lparr>req_user := u\<rparr>) db = profile app slug rq db"
proof -
  let ?pp = "POSTS_PER_PAGE app"
  let ?qs = "profile_posts prof db"
  note pp = assms(2)
  from get_page_total [OF pp, of ?qs "req_page rq"]
  have page: "\<exists>k. 1 \<le> k \<and> k \<le> pages_count ?pp ?qs
            \<and> profile app slug rq db =
                (Inr (TemplateResponse ''blog/profile.html''
                   (ProfileContext prof
                      \<lparr>object_list = take ?pp (drop ((k - 1) * ?pp) ?qs), number = int k,
                       paginator_num_pages = int (pages_count ?pp ?qs)\<rparr>)), db)"
    using assms(1) by (auto simp: profile_def)
  have shown: "response_posts (fst (profile app slug (rq\<lparr>req_page := PageInt (int k)\<rparr>) db))
          = (case get_page ?pp ?qs (PageInt (int k)) of Inl e \<Rightarrow> [] | Inr pg \<Rightarrow> object_list pg)"
    for k
    using assms(1) by (simp add: profile_def split: sum.splits)
  have cover: "concat (map (\<lambda>k. response_posts
                           (fst (profile app slug (rq\<lparr>req_page := PageInt (int k)\<rparr>) db)))
                  [1..<Suc (pages_count ?pp ?qs)]) = ?qs"
    using get_page_pages_cover [OF pp, of ?qs] by (simp only: shown)
  have same: "profile app slug (rq\<lparr>req_user := u\<rparr>) db = profile app slug rq db"
    by (simp add: profile_def split: sum.splits)
  from page cover profile_posts_all profile_posts_sorted profile_posts_counts same
  show ?thesis by (intro conjI)
qed

theorem profile_lists_all_posts_of_user_witness:
  "get_object_or_404 (\<lambda>u. username u = ''alice'') (users blog) = Inr alice
   \<and> 0 < POSTS_PER_PAGE site
   \<and> profile site ''alice'' (browse AnonymousUser (PageInt 2)) blog =
       (Inr (TemplateResponse ''blog/profile.html''
          (ProfileContext alice
             \<lparr>object_list = [(post2, 0), (post1, 1)], number = 2, paginator_num_pages = 2\<rparr>)),
        blog)
   \<and> profile_posts alice blog = [(post4, 0), (post5, 0), (post2, 0), (post1, 1)]
   \<and> mset (map fst (profile_posts alice blog))
       = mset (filter (\<lambda>p. post_author p = user_pk alice) (posts blog))
   \<and> profile site ''alice'' (browse (Authenticated bob) (PageInt 2)) blog
       = profile site ''alice'' (browse AnonymousUser (PageInt 2)) blog"
proof -
  have h1: "get_object_or_404 (\<lambda>u. username u = ''alice'') (users blog) = Inr alice"
    by code_simp
  have h2: "0 < POSTS_PER_PAGE site"
    by (simp add: site_def)
  have r: "profile site ''alice'' (browse AnonymousUser (PageInt 2)) blog =
       (Inr (TemplateResponse ''blog/profile.html''
          (ProfileContext alice
             \<lparr>object_list = [(post2, 0), (post1, 1)], number = 2, paginator_num_pages = 2\<rparr>)),
        blog)"
    by code_simp
  have q: "profile_posts alice blog = [(post4, 0), (post5, 0), (post2, 0), (post1, 1)]"
    by code_simp
  have b: "(browse AnonymousUser (PageInt 2))\<lparr>req_user := Authenticated bob\<rparr>
             = browse (Authenticated bob) (PageInt 2)"
    by (simp add: browse_def)
  from profile_lists_all_posts_of_user [OF h1 h2, of "browse AnonymousUser (PageInt 2)"
      "Authenticated bob"]
  have "mset (map fst (profile_posts alice blog))
          = mset (filter (\<lambda>p. post_author p = user_pk alice) (posts blog))"
    and "profile site ''alice'' (browse (Authenticated bob) (PageInt 2)) blog
          = profile site ''alice'' (browse AnonymousUser (PageInt 2)) blog"
    unfolding b by blast+
  with h1 h2 r q show ?thesis by (intro conjI)
qed

section \<open>Ownership checks\<close>

lemma user_eq_iff: "user_eq k r \<longleftrightarrow> (\<exists>u. r = Authenticated u \<and> k = user_pk u)"
  by (cases r) auto

lemma PostUpdateView_denied:
  assumes "get_object_or_404 (\<lambda>p. post_pk p = pk) (posts db) = Inr p"
    and "\<not> user_eq (post_author p) (req_user rq)"
  shows "PostUpdateView app pk rq db = (Inr (HttpResponseRedirect (post_detail_url pk)), db)"
  using assms by (simp add: PostUpdateView_def)

lemma PostDeleteView_denied:
  assumes "get_object_or_404 (\<lambda>p. post_pk p = pk) (posts db) = Inr p"
    and "\<not> user_eq (post_author p) (req_user rq)"
  shows "PostDeleteView app pk rq db = (Inr (HttpResponseRedirect (post_detail_url pk)), db)"
  using assms by (simp add: PostDeleteView_def)

lemma PostUpdateView_change:
  assumes "snd (PostUpdateView app pk rq db) \<noteq> db"
  shows "\<exists>p. get_object_or_404 (\<lambda>p. post_pk p = pk) (posts db) = Inr p
           \<and> user_eq (post_author p) (req_user rq)"
  using assms by (auto simp: PostUpdateView_def split: sum.splits if_splits)

lemma PostDeleteView_change:
  assumes "snd (PostDeleteView app pk rq db) \<noteq> db"
  shows "\<exists>p. get_object_or_404 (\<lambda>p. post_pk p = pk) (posts db) = Inr p
           \<and> user_eq (post_author p) (req_user rq)"
  using assms by (auto simp: PostDeleteView_def split: sum.splits if_splits)

lemma CommentUpdateView_denied:
  assumes "get_object_or_404 (\<lambda>c. comment_pk c = pk) (comments db) = Inr c"
    and "\<not> user_eq (comment_author c) (req_user rq)"
  shows "CommentUpdateView app pk rq db = (Inl PermissionDenied, db)"
  using assms by (simp add: CommentUpdateView_def)

lemma CommentDeleteView_denied:
  assumes "get_object_or_404 (\<lambda>c. comment_pk c = pk) (comments db) = Inr c"
    and "\<not> user_eq (comment_author c) (req_user rq)"
  shows "CommentDeleteView app pk rq db = (Inl PermissionDenied, db)"
  using assms by (simp add: CommentDeleteView_def)

lemma CommentUpdateView_change:
  assumes "snd (CommentUpdateView app pk rq db) \<noteq> db"
  shows "\<exists>c. get_object_or_404 (\<lambda>c. comment_pk c = pk) (comments db) = Inr c
           \<and> user_eq (comment_author c) (req_user rq)"
  using assms by (auto simp: CommentUpdateView_def split: sum.splits if_splits)

lemma CommentDeleteView_change:
  assumes "snd (CommentDeleteView app pk rq db) \<noteq> db"
  shows "\<exists>c. get_object_or_404 (\<lambda>c. comment_pk c = pk) (comments db) = Inr c
           \<and> user_eq (comment_author c) (req_user rq)"
  using assms by (auto simp: CommentDeleteView_def split: sum.splits if_splits)

text \<open>
  Claim C3. When the post with the given \<^verbatim>\<open>pk\<close> exists and \<^verbatim>\<open>request.user\<close> is not
  its author, every request to the edit view and to the delete view is answered with
  a redirect to the post's page and the database is left as it was. A request to
  either view that changes the database comes from the authenticated user who is the
  author of the post.
\<close>

theorem post_edit_delete_only_by_author:
  "(get_object_or_404 (\<lambda>p. post_pk p = pk) (posts db) = Inr p
      \<and> \<not> user_eq (post_author p) (req_user rq) \<longrightarrow>
        PostUpdateView app pk rq db = (Inr (HttpResponseRedirect (post_detail_url pk)), db)
      \<and> PostDeleteView app pk rq db = (Inr (HttpResponseRedirect (post_detail_url pk)), db))
   \<and> (snd (PostUpdateView app pk rq db) \<noteq> db \<or> snd (PostDeleteView app pk rq db) \<noteq> db \<longrightarrow>
        (\<exists>q u. get_object_or_404 (\<lambda>p. post_pk p = pk) (posts db) = Inr q
              \<and> req_user rq = Authenticated u \<and> post_author q = user_pk u))"
proof (intro conjI impI)
  assume "get_object_or_404 (\<lambda>p. post_pk p = pk) (posts db) = Inr p
      \<and> \<not> user_eq (post_author p) (req_user rq)"
  then show "PostUpdateView app pk rq db = (Inr (HttpResponseRedirect (post_detail_url pk)), db)"
    and "PostDeleteView app pk rq db = (Inr (HttpResponseRedirect (post_detail_url pk)), db)"
    by (simp_all add: PostUpdateView_denied PostDeleteView_denied)
next
  assume "snd (PostUpdateView app pk rq db) \<noteq> db \<or> snd (PostDeleteView app pk rq db) \<noteq> db"
  then obtain q where "get_object_or_404 (\<lambda>p. post_pk p = pk) (posts db) = Inr q"
    and "user_eq (post_author q) (req_user rq)"
    using PostUpdateView_change PostDeleteView_change by blast
  then show "\<exists>q u. get_object_or_404 (\<lambda>p. post_pk p = pk) (posts db) = Inr q
              \<and> req_user rq = Authenticated u \<and> post_author q = user_pk u"
    by (auto simp: user_eq_iff)
qed

theorem post_edit_delete_only_by_author_witness:
  "get_object_or_404 (\<lambda>p. post_pk p = 1) (posts blog) = Inr post1
   \<and> \<not> user_eq (post_author post1) (req_user (submit (Authenticated bob) ''Changed''))
   \<and> PostUpdateView site 1 (submit (Authenticated bob) ''Changed'') blog
       = (Inr (HttpResponseRedirect (post_detail_url 1)), blog)
   \<and> PostDeleteView site 1 (submit (Authenticated bob) ''Changed'') blog
       = (Inr (HttpResponseRedirect (post_detail_url 1)), blog)
   \<and> snd (PostUpdateView site 1 (submit (Authenticated alice) ''Changed'') blog) \<noteq> blog
   \<and> (\<exists>q u. get_object_or_404 (\<lambda>p. post_pk p = 1) (posts blog) = Inr q
          \<and> req_user (submit (Authenticated alice) ''Changed'') = Authenticated u
          \<and> post_author q = user_pk u)"
proof -
  have g: "get_object_or_404 (\<lambda>p. post_pk p = 1) (posts blog) = Inr post1"
    by code_simp
  have n: "\<not> user_eq (post_author post1) (req_user (submit (Authenticated bob) ''Changed''))"
    by code_simp
  have c: "snd (PostUpdateView site 1 (submit (Authenticated alice) ''Changed'') blog) \<noteq> blog"
    by code_simp
  from g n post_edit_delete_only_by_author
    [where pk = 1 and db = blog and p = post1 and app = site
       and rq = "submit (Authenticated bob) ''Changed''"]
  have d: "PostUpdateView site 1 (submit (Authenticated bob) ''Changed'') blog
       = (Inr (HttpResponseRedirect (post_detail_url 1)), blog)
     \<and> PostDeleteView site 1 (submit (Authenticated bob) ''Changed'') blog
       = (Inr (HttpResponseRedirect (post_detail_url 1)), blog)"
    by blast
  from c post_edit_delete_only_by_author
    [where pk = 1 and db = blog and p = post1 and app = site
       and rq = "submit (Authenticated alice) ''Changed''"]
  have a: "\<exists>q u. get_object_or_404 (\<lambda>p. post_pk p = 1) (posts blog) = Inr q
          \<and> req_user (submit (Authenticated alice) ''Changed'') = Authenticated u
          \<and> post_author q = user_pk u"
    by blast
  from g n d c a show ?thesis by (intro conjI) blast+
qed

text \<open>
  Claim C4. When the comment with the given \<^verbatim>\<open>pk\<close> exists and the request comes from
  an authenticated user who is not its author, the comment's edit view and delete view
  raise \<^verbatim>\<open>PermissionDenied\<close>, which is HTTP 403, and leave the database as it was. A
  request to either view that changes the database comes from the authenticated user
  who is the author of the comment.
\<close>

theorem comment_edit_delete_only_by_author:
  "(get_object_or_404 (\<lambda>c. comment_pk c = pk) (comments db) = Inr c
      \<and> req_user rq = Authenticated u \<and> user_pk u \<noteq> comment_author c \<longrightarrow>
        CommentUpdateView app pk rq db = (Inl PermissionDenied, db)
      \<and> CommentDeleteView app pk rq db = (Inl PermissionDenied, db)
      \<and> status_code (fst (CommentUpdateView app pk rq db)) = 403
      \<and> status_code (fst (CommentDeleteView app pk rq db)) = 403)
   \<and> (snd (CommentUpdateView app pk rq db) \<noteq> db \<or> snd (CommentDeleteView app pk rq db) \<noteq> db \<longrightarrow>
        (\<exists>d v. get_object_or_404 (\<lambda>c. comment_pk c = pk) (comments db) = Inr d
              \<and> req_user rq = Authenticated v \<and> comment_author d = user_pk v))"
proof (intro conjI impI)
  assume h: "get_object_or_404 (\<lambda>c. comment_pk c = pk) (comments db) = Inr c
      \<and> req_user rq = Authenticated u \<and> user_pk u \<noteq> comment_author c"
  then have n: "\<not> user_eq (comment_author c) (req_user rq)" by auto
  from h n show "CommentUpdateView app pk rq db = (Inl PermissionDenied, db)"
    and "CommentDeleteView app pk rq db = (Inl PermissionDenied, db)"
    by (simp_all add: CommentUpdateView_denied CommentDeleteView_denied)
  then show "status_code (fst (CommentUpdateView app pk rq db)) = 403"
    and "status_code (fst (CommentDeleteView app pk rq db)) = 403"
    by simp_all
next
  assume "snd (CommentUpdateView app pk rq db) \<noteq> db \<or> snd (CommentDeleteView app pk rq db) \<noteq> db"
  then obtain d where "get_object_or_404 (\<lambda>c. comment_pk c = pk) (comments db) = Inr d"
    and "user_eq (comment_author d) (req_user rq)"
    using CommentUpdateView_change CommentDeleteView_change by blast
  then show "\<exists>d v. get_object_or_404 (\<lambda>c. comment_pk c = pk) (comments db) = Inr d
              \<and> req_user rq = Authenticated v \<and> comment_author d = user_pk v"
    by (auto simp: user_eq_iff)
qed

theorem comment_edit_delete_only_by_author_witness:
  "get_object_or_404 (\<lambda>c. comment_pk c = 1) (comments blog) = Inr comment1
   \<and> req_user (submit (Authenticated alice) ''Changed'') = Authenticated alice
   \<and> user_pk alice \<noteq> comment_author comment1
   \<and> CommentUpdateView site 1 (submit (Authenticated alice) ''Changed'') blog
       = (Inl PermissionDenied, blog)
   \<and> CommentDeleteView site 1 (submit (Authenticated alice) ''Changed'') blog
       = (Inl PermissionDenied, blog)
   \<and> snd (CommentDeleteView site 1 (submit (Authenticated bob) ''Changed'') blog) \<noteq> blog
   \<and> (\<exists>d v. get_object_or_404 (\<lambda>c. comment_pk c = 1) (comments blog) = Inr d
          \<and> req_user (submit (Authenticated bob) ''Changed'') = Authenticated v
          \<and> comment_author d = user_pk v)"
proof -
  have g: "get_object_or_404 (\<lambda>c. comment_pk c = 1) (comments blog) = Inr comment1"
    by code_simp
  have r: "req_user (submit (Authenticated alice) ''Changed'') = Authenticated alice"
    by (simp add: submit_def)
  have n: "user_pk alice \<noteq> comment_author comment1"
    by code_simp
  have c: "snd (CommentDeleteView site 1 (submit (Authenticated bob) ''Changed'') blog) \<noteq> blog"
    by code_simp
  from g r n comment_edit_delete_only_by_author
    [where pk = 1 and db = blog and c = comment1 and app = site and u = alice
       and rq = "submit (Authenticated alice) ''Changed''"]
  have d: "CommentUpdateView site 1 (submit (Authenticated alice) ''Changed'') blog
       = (Inl PermissionDenied, blog)
     \<and> CommentDeleteView site 1 (submit (Authenticated alice) ''Changed'') blog
       = (Inl PermissionDenied, blog)"
    by blast
  from c comment_edit_delete_only_by_author
    [where pk = 1 and db = blog and c = comment1 and app = site and u = bob
       and rq = "submit (Authenticated bob) ''Changed''"]
  have a: "\<exists>d v. get_object_or_404 (\<lambda>c. comment_pk c = 1) (comments blog) = Inr d
          \<and> req_user (submit (Authenticated bob) ''Changed'') = Authenticated v
          \<and> comment_author d = user_pk v"
    by blast
  from g r n d c a show ?thesis by (intro conjI) blast+
qed

text \<open>
  Claim C5, as stated, fails for the two post views: a user who is not the author of
  a post and submits its edit form gets a redirect (HTTP 302) to the post's page, and
  no \<^verbatim>\<open>PermissionDenied\<close> is raised.
\<close>

theorem post_edit_by_other_user_is_redirect:
  "fst (PostUpdateView site 1 (submit (Authenticated bob) ''Changed'') blog)
     = Inr (HttpResponseRedirect (post_detail_url 1))
   \<and> fst (PostUpdateView site 1 (submit (Authenticated bob) ''Changed'') blog)
     \<noteq> Inl PermissionDenied
   \<and> status_code (fst (PostUpdateView site 1 (submit (Authenticated bob) ''Changed'') blog)) = 302
   \<and> post_author post1 \<noteq> user_pk bob
   \<and> get_object_or_404 (\<lambda>p. post_pk p = 1) (posts blog) = Inr post1"
  by code_simp

text \<open>
  Claim C5, amended. A request by anyone who is not the author of the record leaves
  the database as it was in all four handlers; the comment edit and delete views
  raise \<^verbatim>\<open>PermissionDenied\<close> (HTTP 403), the post edit and delete views answer with a
  redirect (HTTP 302) to the post's page.
\<close>

theorem unauthorized_mutation_outcome:
  "(get_object_or_404 (\<lambda>c. comment_pk c = pk) (comments db) = Inr c
      \<and> \<not> user_eq (comment_author c) (req_user rq) \<longrightarrow>
        CommentUpdateView app pk rq db = (Inl PermissionDenied, db)
      \<and> CommentDeleteView app pk rq db = (Inl PermissionDenied, db)
      \<and> status_code (Inl PermissionDenied) = 403)
   \<and> (get_object_or_404 (\<lambda>p. post_pk p = pk) (posts db) = Inr p
      \<and> \<not> user_eq (post_author p) (req_user rq) \<longrightarrow>
        PostUpdateView app pk rq db = (Inr (HttpResponseRedirect (post_detail_url pk)), db)
      \<and> PostDeleteView app pk rq db = (Inr (HttpResponseRedirect (post_detail_url pk)), db)
      \<and> status_code (Inr (HttpResponseRedirect (post_detail_url pk))) = 302)"
  by (simp add: CommentUpdateView_denied CommentDeleteView_denied PostUpdateView_denied
      PostDeleteView_denied)

theorem unauthorized_mutation_outcome_witness:
  "get_object_or_404 (\<lambda>c. comment_pk c = 1) (comments blog) = Inr comment1
   \<and> \<not> user_eq (comment_author comment1) (req_user (submit AnonymousUser ''Changed''))
   \<and> get_object_or_404 (\<lambda>p. post_pk p = 1) (posts blog) = Inr post1
   \<and> \<not> user_eq (post_author post1) (req_user (submit AnonymousUser ''Changed''))
   \<and> CommentUpdateView site 1 (submit AnonymousUser ''Changed'') blog = (Inl PermissionDenied, blog)
   \<and> CommentDeleteView site 1 (submit AnonymousUser ''Changed'') blog = (Inl PermissionDenied, blog)
   \<and> PostUpdateView site 1 (submit AnonymousUser ''Changed'') blog
       = (Inr (HttpResponseRedirect (post_detail_url 1)), blog)
   \<and> PostDeleteView site 1 (submit AnonymousUser ''Changed'') blog
       = (Inr (HttpResponseRedirect (post_detail_url 1)), blog)"
proof -
  have g: "get_object_or_404 (\<lambda>c. comment_pk c = 1) (comments blog) = Inr comment1"
    by code_simp
  have n: "\<not> user_eq (comment_author comment1) (req_user (submit AnonymousUser ''Changed''))"
    by code_simp
  have g': "get_object_or_404 (\<lambda>p. post_pk p = 1) (posts blog) = Inr post1"
    by code_simp
  have n': "\<not> user_eq (post_author post1) (req_user (submit AnonymousUser ''Changed''))"
    by code_simp
  from g n g' n' unauthorized_mutation_outcome
    [where pk = 1 and db = blog and c = comment1 and p = post1 and app = site
       and rq = "submit AnonymousUser ''Changed''"]
  show ?thesis by blast
qed

text \<open>
  Claim C10. When the username names a user and the request comes from an
  authenticated user other than that one, the profile edit view raises
  \<^verbatim>\<open>PermissionDenied\<close> (HTTP 403) and leaves the database as it was. When the
  view does not raise \<^verbatim>\<open>PermissionDenied\<close> for an existing user, and whenever it
  changes the database, \<^verbatim>\<open>request.user\<close> is the authenticated user that the
  username names.
\<close>

theorem profile_edit_only_by_owner:
  "(get_object_or_404 (\<lambda>u. username u = slug) (users db) = Inr target
      \<and> req_user rq = Authenticated u \<and> user_pk u \<noteq> user_pk target \<longrightarrow>
        UserUpdateView app slug rq db = (Inl PermissionDenied, db)
      \<and> status_code (fst (UserUpdateView app slug rq db)) = 403)
   \<and> (get_object_or_404 (\<lambda>u. username u = slug) (users db) = Inr target
      \<and> fst (UserUpdateView app slug rq db) \<noteq> Inl PermissionDenied \<longrightarrow>
        (\<exists>v. req_user rq = Authenticated v \<and> user_pk v = user_pk target))
   \<and> (snd (UserUpdateView app slug rq db) \<noteq> db \<longrightarrow>
        (\<exists>t v. get_object_or_404 (\<lambda>u. username u = slug) (users db) = Inr t
              \<and> req_user rq = Authenticated v \<and> user_pk v = user_pk t))"
proof (intro conjI impI)
  assume h: "get_object_or_404 (\<lambda>u. username u = slug) (users db) = Inr target
      \<and> req_user rq = Authenticated u \<and> user_pk u \<noteq> user_pk target"
  then have "\<not> user_eq (user_pk target) (req_user rq)" by auto
  with h show "UserUpdateView app slug rq db = (Inl PermissionDenied, db)"
    by (simp add: UserUpdateView_def)
  then show "status_code (fst (UserUpdateView app slug rq db)) = 403" by simp
next
  assume "get_object_or_404 (\<lambda>u. username u = slug) (users db) = Inr target
      \<and> fst (UserUpdateView app slug rq db) \<noteq> Inl PermissionDenied"
  then have "user_eq (user_pk target) (req_user rq)"
    by (auto simp: UserUpdateView_def split: if_splits)
  then show "\<exists>v. req_user rq = Authenticated v \<and> user_pk v = user_pk target"
    by (auto simp: user_eq_iff)
next
  assume "snd (UserUpdateView app slug rq db) \<noteq> db"
  then obtain t where "get_object_or_404 (\<lambda>u. username u = slug) (users db) = Inr t"
    and "user_eq (user_pk t) (req_user rq)"
    by (auto simp: UserUpdateView_def split: sum.splits if_splits)
  then show "\<exists>t v. get_object_or_404 (\<lambda>u. username u = slug) (users db) = Inr t
              \<and> req_user rq = Authenticated v \<and> user_pk v = user_pk t"
    by (auto simp: user_eq_iff)
qed

theorem profile_edit_only_by_owner_witness:
  "get_object_or_404 (\<lambda>u. username u = ''alice'') (users blog) = Inr alice
   \<and> req_user (submit (Authenticated bob) ''Eve'') = Authenticated bob
   \<and> user_pk bob \<noteq> user_pk alice
   \<and> UserUpdateView site ''alice'' (submit (Authenticated bob) ''Eve'') blog
       = (Inl PermissionDenied, blog)
   \<and> fst (UserUpdateView site ''alice'' (submit (Authenticated alice) ''Alicia'') blog)
       \<noteq> Inl PermissionDenied
   \<and> snd (UserUpdateView site ''alice'' (submit (Authenticated alice) ''Alicia'') blog) \<noteq> blog
   \<and> (\<exists>v. req_user (submit (Authenticated alice) ''Alicia'') = Authenticated v
          \<and> user_pk v = user_pk alice)"
proof -
  let ?bad = "submit (Authenticated bob) ''Eve''"
  let ?good = "submit (Authenticated alice) ''Alicia''"
  have g: "get_object_or_404 (\<lambda>u. username u = ''alice'') (users blog) = Inr alice"
    by code_simp
  have r: "req_user ?bad = Authenticated bob"
    by (simp add: submit_def)
  have n: "user_pk bob \<noteq> user_pk alice"
    by code_simp
  have p: "fst (UserUpdateView site ''alice'' ?good blog) \<noteq> Inl PermissionDenied"
    by code_simp
  have c: "snd (UserUpdateView site ''alice'' ?good blog) \<noteq> blog"
    by code_simp
  from g r n profile_edit_only_by_owner
    [where slug = "''alice''" and db = blog and target = alice and app = site and u = bob
       and rq = ?bad]
  have d: "UserUpdateView site ''alice'' ?bad blog = (Inl PermissionDenied, blog)"
    by blast
  from g p profile_edit_only_by_owner
    [where slug = "''alice''" and db = blog and target = alice and app = site and u = bob
       and rq = ?good]
  have a: "\<exists>v. req_user ?good = Authenticated v \<and> user_pk v = user_pk alice"
    by blast
  from g r n d p c a show ?thesis by (intro conjI) blast+
qed

section \<open>Creating a post\<close>

text \<open>
  Claim C8. A request to the post creation view by a user who is not authenticated is
  answered with a redirect to the login page, whatever its method and data, and the
  database, so also the table of posts, is left as it was.
\<close>

theorem create_post_requires_login:
  assumes "req_user rq = AnonymousUser"
  shows "PostCreateView app rq db = (Inr (HttpResponseRedirect login_url), db)"
  using assms by (simp add: PostCreateView_def LoginRequiredMixin_dispatch_def)

theorem create_post_requires_login_witness:
  "req_user (submit AnonymousUser ''New'') = AnonymousUser
   \<and> PostCreateView site (submit AnonymousUser ''New'') blog
       = (Inr (HttpResponseRedirect login_url), blog)
   \<and> snd (PostCreateView site (submit (Authenticated bob) ''New'') blog) \<noteq> blog"
proof -
  have a: "req_user (submit AnonymousUser ''New'') = AnonymousUser"
    by (simp add: submit_def)
  have c: "snd (PostCreateView site (submit (Authenticated bob) ''New'') blog) \<noteq> blog"
    by code_simp
  from a c create_post_requires_login [OF a, of site blog] show ?thesis by blast
qed

section \<open>The category page\<close>

lemma category_queryset_empty:
  assumes "\<not> (\<exists>c \<in> set (categories db). cat_slug c = category_slug \<and> cat_is_published c)"
  shows "CategoryListView_get_queryset category_slug rq db = []"
proof -
  have "category_of db p = Some c \<Longrightarrow> c \<in> set (categories db)" for p c
    by (auto simp: category_of_def find_Some_iff split: option.splits)
  with assms show ?thesis
    by (auto simp: CategoryListView_get_queryset_def filter_empty_conv split: option.splits)
qed

text \<open>
  Claim C9. When no published category has the slug, be it that no category has the
  slug or that the category with the slug is unpublished, a \<^verbatim>\<open>GET\<close> or \<^verbatim>\<open>HEAD\<close> request
  for the category listing raises \<^verbatim>\<open>Http404\<close> (HTTP 404), while the queryset of
  posts for the slug is just empty.
\<close>

theorem unpublished_category_is_not_found:
  assumes "\<not> (\<exists>c \<in> set (categories db). cat_slug c = category_slug \<and> cat_is_published c)"
    and "req_method rq = GET \<or> req_method rq = HEAD"
  shows "fst (CategoryListView app category_slug rq db) = Inl Http404
         \<and> status_code (fst (CategoryListView app category_slug rq db)) = 404
         \<and> snd (CategoryListView app category_slug rq db) = db
         \<and> CategoryListView_get_queryset category_slug rq db = []"
proof -
  have g: "get_object_or_404 (\<lambda>c. cat_slug c = category_slug \<and> cat_is_published c = True)
            (categories db) = Inl Http404"
    using assms(1) by (auto simp: get_object_or_404_def filter_empty_conv split: list.splits)
  have e: "CategoryListView_get_queryset category_slug rq db = []"
    using assms(1) by (rule category_queryset_empty)
  have l: "list_context_data pp [] raw = Inl Http404 \<or> (\<exists>r. list_context_data pp [] raw = Inr r)"
    for pp raw
    by (cases raw)
      (auto simp: list_context_data_def paginate_queryset_def paginator_page_def
        validate_number_def num_pages_def Let_def split: sum.splits error.splits)
  have "fst (CategoryListView app category_slug rq db) = Inl Http404
      \<and> snd (CategoryListView app category_slug rq db) = db"
    using assms(2) g l [of "POSTS_PER_PAGE app" "req_page rq"]
    by (auto simp: CategoryListView_def e split: sum.splits)
  with e show ?thesis by simp
qed

theorem unpublished_category_is_not_found_witness:
  "\<not> (\<exists>c \<in> set (categories blog). cat_slug c = ''hidden'' \<and> cat_is_published c)
   \<and> hidden \<in> set (categories blog) \<and> cat_slug hidden = ''hidden''
   \<and> (req_method (browse AnonymousUser PageNone) = GET
        \<or> req_method (browse AnonymousUser PageNone) = HEAD)
   \<and> fst (CategoryListView site ''hidden'' (browse AnonymousUser PageNone) blog) = Inl Http404
   \<and> status_code (fst (CategoryListView site ''hidden'' (browse AnonymousUser PageNone) blog)) = 404
   \<and> snd (CategoryListView site ''hidden'' (browse AnonymousUser PageNone) blog) = blog
   \<and> CategoryListView_get_queryset ''hidden'' (browse AnonymousUser PageNone) blog = []
   \<and> fst (CategoryListView site ''nowhere'' (browse AnonymousUser PageNone) blog) = Inl Http404"
proof -
  have h: "\<not> (\<exists>c \<in> set (categories blog). cat_slug c = ''hidden'' \<and> cat_is_published c)"
    by code_simp
  have e: "hidden \<in> set (categories blog) \<and> cat_slug hidden = ''hidden''"
    by code_simp
  have m: "req_method (browse AnonymousUser PageNone) = GET
        \<or> req_method (browse AnonymousUser PageNone) = HEAD"
    by (simp add: browse_def)
  have h': "\<not> (\<exists>c \<in> set (categories blog). cat_slug c = ''nowhere'' \<and> cat_is_published c)"
    by code_simp
  from unpublished_category_is_not_found [OF h m, of site]
    unpublished_category_is_not_found [OF h' m, of site] h e m
  show ?thesis by blast
qed

section \<open>The detail page\<close>

text \<open>
  The home listing and the category listing filter with the same visibility
  predicate; the category listing keeps, of the home listing, the posts of the
  category with the slug.
\<close>

lemma listings_share_filter:
  "PostListView_get_queryset rq db
     = filter (\<lambda>(p, n). visible db (req_now rq) p)
         (annotate db (order_by_pub_date_desc (posts db)))"
  "CategoryListView_get_queryset category_slug rq db
     = filter (\<lambda>(p, n). case category_of db p of None \<Rightarrow> False
                                | Some c \<Rightarrow> cat_slug c = category_slug)
         (PostListView_get_queryset rq db)"
  by (auto simp: PostListView_get_queryset_def CategoryListView_get_queryset_def visible_def
      intro!: filter_cong)

text \<open>
  Claim C2 does not hold for the detail page: it applies no visibility predicate. On
  the example blog an anonymous visitor gets the draft (post 2), the post in the
  unpublished category (post 3) and the scheduled post (post 4) from their detail
  pages, though none of them is visible and the home listing shows only posts 5 and 1.
\<close>

theorem detail_page_shows_hidden_posts:
  "response_post (fst (PostDetailView site 2 (browse AnonymousUser PageNone) blog)) = Some post2
   \<and> \<not> post_is_published post2
   \<and> \<not> visible blog (req_now (browse AnonymousUser PageNone)) post2
   \<and> response_post (fst (PostDetailView site 3 (browse AnonymousUser PageNone) blog)) = Some post3
   \<and> map_option cat_is_published (category_of blog post3) = Some False
   \<and> \<not> visible blog (req_now (browse AnonymousUser PageNone)) post3
   \<and> response_post (fst (PostDetailView site 4 (browse AnonymousUser PageNone) blog)) = Some post4
   \<and> post_pub_date post4 > req_now (browse AnonymousUser PageNone)
   \<and> \<not> visible blog (req_now (browse AnonymousUser PageNone)) post4
   \<and> map fst (response_posts (fst (PostListView site (browse AnonymousUser PageNone) blog)))
       = [post5, post1]"
  by code_simp

end
